theory Spec2Isabelle
  imports Complex_Main "HOL-Library.Sublist"
begin

section \<open>The invoice service (src/invoice_service.py)\<close>

text \<open>
  A shallow embedding of \<^verbatim>\<open>InvoiceService\<close>. Conventions of the model:
  \<^item> a Python \<^verbatim>\<open>float\<close> is a \<open>pyfloat\<close>: a finite value, one of the two infinities,
    or NaN. The finite values are reals and their arithmetic is exact (the rounding of
    doubles to 53 bits, the underflow and the sign of zero are outside the model), but
    the range is that of doubles: a result whose magnitude reaches \<open>2^1024 - 2^970\<close>
    is an infinity, and the infinities and NaN behave as in IEEE 754;
  \<^item> a Python \<^verbatim>\<open>int\<close> is an \<^typ>\<open>int\<close>; where the source multiplies it with a float
    it is converted, and the conversion raises \<^verbatim>\<open>OverflowError\<close> beyond the range of
    doubles; the small integer constants of the source that meet floats (thresholds,
    fees, the flat discount) are written as the floats they convert to;
  \<^item> a Python \<^verbatim>\<open>str\<close> is a \<^typ>\<open>string\<close>, each \<^typ>\<open>char\<close> standing for the
    code point of its number (so the strings of the model are those over the code points
    below 256);
  \<^item> \<^verbatim>\<open>Optional[str]\<close> and an invoice that may be \<^verbatim>\<open>None\<close> are \<open>option\<close>s;
  \<^item> a raised exception is the \<open>Inl\<close> of a sum.
\<close>

subsection \<open>Floats\<close>

datatype pyfloat = Finite real | PosInf | NegInf | NaN

text \<open>
  The least magnitude that rounds to an infinity: halfway between the largest double,
  \<open>2^1024 - 2^971\<close>, and \<open>2^1024\<close> (the tie goes to the even neighbour, the infinity).
\<close>

definition float_limit :: real where
  "float_limit = 2 ^ 1024 - 2 ^ 970"

text \<open>The float that an operation with the exact result \<open>x\<close> returns.\<close>

definition to_float :: "real \<Rightarrow> pyfloat" where
  "to_float x =
     (if float_limit \<le> x then PosInf
      else if x \<le> - float_limit then NegInf
      else Finite x)"

fun fneg :: "pyfloat \<Rightarrow> pyfloat" where
  "fneg (Finite a) = Finite (- a)"
| "fneg PosInf = NegInf"
| "fneg NegInf = PosInf"
| "fneg NaN = NaN"

fun fadd :: "pyfloat \<Rightarrow> pyfloat \<Rightarrow> pyfloat" where
  "fadd (Finite a) (Finite b) = to_float (a + b)"
| "fadd NaN _ = NaN"
| "fadd _ NaN = NaN"
| "fadd PosInf NegInf = NaN"
| "fadd NegInf PosInf = NaN"
| "fadd PosInf _ = PosInf"
| "fadd _ PosInf = PosInf"
| "fadd NegInf _ = NegInf"
| "fadd _ NegInf = NegInf"

fun fmul :: "pyfloat \<Rightarrow> pyfloat \<Rightarrow> pyfloat" where
  "fmul (Finite a) (Finite b) = to_float (a * b)"
| "fmul NaN _ = NaN"
| "fmul _ NaN = NaN"
| "fmul PosInf (Finite b) = (if 0 < b then PosInf else if b < 0 then NegInf else NaN)"
| "fmul NegInf (Finite b) = (if 0 < b then NegInf else if b < 0 then PosInf else NaN)"
| "fmul (Finite a) PosInf = (if 0 < a then PosInf else if a < 0 then NegInf else NaN)"
| "fmul (Finite a) NegInf = (if 0 < a then NegInf else if a < 0 then PosInf else NaN)"
| "fmul PosInf PosInf = PosInf"
| "fmul NegInf NegInf = PosInf"
| "fmul PosInf NegInf = NegInf"
| "fmul NegInf PosInf = NegInf"

text \<open>The comparisons: false as soon as one side is NaN.\<close>

fun flt :: "pyfloat \<Rightarrow> pyfloat \<Rightarrow> bool" where
  "flt (Finite a) (Finite b) = (a < b)"
| "flt NaN _ = False"
| "flt _ NaN = False"
| "flt _ NegInf = False"
| "flt PosInf _ = False"
| "flt NegInf _ = True"
| "flt _ PosInf = True"

fun fle :: "pyfloat \<Rightarrow> pyfloat \<Rightarrow> bool" where
  "fle (Finite a) (Finite b) = (a \<le> b)"
| "fle NaN _ = False"
| "fle _ NaN = False"
| "fle NegInf _ = True"
| "fle _ PosInf = True"
| "fle _ NegInf = False"
| "fle PosInf _ = False"

text \<open>The operators of the source on floats: \<^verbatim>\<open>+\<close>, \<^verbatim>\<open>-\<close>, \<^verbatim>\<open>*\<close> and the comparisons.\<close>

instantiation pyfloat :: "{plus, minus, times, ord}"
begin

definition plus_pyfloat :: "pyfloat \<Rightarrow> pyfloat \<Rightarrow> pyfloat" where
  "plus_pyfloat x y = fadd x y"

definition minus_pyfloat :: "pyfloat \<Rightarrow> pyfloat \<Rightarrow> pyfloat" where
  "minus_pyfloat x y = fadd x (fneg y)"

definition times_pyfloat :: "pyfloat \<Rightarrow> pyfloat \<Rightarrow> pyfloat" where
  "times_pyfloat x y = fmul x y"

definition less_pyfloat :: "pyfloat \<Rightarrow> pyfloat \<Rightarrow> bool" where
  "less_pyfloat x y = flt x y"

definition less_eq_pyfloat :: "pyfloat \<Rightarrow> pyfloat \<Rightarrow> bool" where
  "less_eq_pyfloat x y = fle x y"

instance ..

end

subsection \<open>Data\<close>

record LineItem =
  sku :: string
  category :: string
  unit_price :: pyfloat
  qty :: int
  fragile :: bool

record Invoice =
  invoice_id :: string
  customer_id :: string
  country :: string
  membership :: string
  coupon :: "string option"
  items :: "LineItem list"

datatype error =
    ValueError string
  | AttributeError
  | OverflowError

subsection \<open>Built-ins of Python the service calls\<close>

text \<open>
  The conversion of the \<^verbatim>\<open>int\<close> operand of a float operation: \<^verbatim>\<open>OverflowError\<close> (int
  too large to convert to float) when the integer rounds to a magnitude beyond the
  doubles.
\<close>

definition float_of_int :: "int \<Rightarrow> error + pyfloat" where
  "float_of_int n =
     (if \<bar>of_int n\<bar> < float_limit then Inr (Finite (of_int n)) else Inl OverflowError)"

text \<open>
  \<^verbatim>\<open>max(a, b)\<close> of two arguments: the first one, unless the second is strictly greater
  (so a NaN in the first place is returned).
\<close>

definition builtin_max :: "pyfloat \<Rightarrow> pyfloat \<Rightarrow> pyfloat" where
  "builtin_max a b = (if a < b then b else a)"

text \<open>
  \<^verbatim>\<open>str.isspace\<close> on one character, for code points below 256: TAB, LF, VT, FF, CR,
  the separators FS, GS, RS, US, the space, NEL (133) and the no-break space (160).
\<close>

definition isspace :: "char \<Rightarrow> bool" where
  "isspace c =
     (let n = (of_char c :: nat)
      in (9 \<le> n \<and> n \<le> 13) \<or> (28 \<le> n \<and> n \<le> 32) \<or> n = 133 \<or> n = 160)"

definition lstrip :: "string \<Rightarrow> string" where
  "lstrip s = dropWhile isspace s"

definition rstrip :: "string \<Rightarrow> string" where
  "rstrip s = rev (dropWhile isspace (rev s))"

text \<open>\<^verbatim>\<open>s.strip()\<close>: leading and trailing whitespace removed.\<close>

definition strip :: "string \<Rightarrow> string" where
  "strip s = rstrip (lstrip s)"

text \<open>\<^verbatim>\<open>sep.join(xs)\<close>.\<close>

fun join :: "string \<Rightarrow> string list \<Rightarrow> string" where
  "join sep [] = []"
| "join sep [x] = x"
| "join sep (x # y # ys) = x @ sep @ join sep (y # ys)"

subsection \<open>Configuration tables\<close>

text \<open>\<^verbatim>\<open>self._coupon_rate\<close>, set in \<^verbatim>\<open>__init__\<close>.\<close>

definition coupon_rate :: "string \<rightharpoonup> pyfloat" where
  "coupon_rate =
     map_of [(''WELCOME10'', Finite 0.10), (''VIP20'', Finite 0.20), (''STUDENT5'', Finite 0.05)]"

text \<open>The local dictionaries of \<^verbatim>\<open>_calculate_shipping\<close> and \<^verbatim>\<open>_calculate_tax\<close>.\<close>

definition shipping_rates :: "string \<rightharpoonup> pyfloat \<times> pyfloat" where
  "shipping_rates =
     map_of [(''TH'', (Finite 500, Finite 60)), (''JP'', (Finite 4000, Finite 600)),
             (''US'', (Finite 100, Finite 15))]"

definition tax_rates :: "string \<rightharpoonup> pyfloat" where
  "tax_rates = map_of [(''TH'', Finite 0.07), (''JP'', Finite 0.10), (''US'', Finite 0.08)]"

subsection \<open>Validation\<close>

text \<open>
  The body of the loop of \<^verbatim>\<open>_validate\<close>: four independent checks on one item, each
  appending to the problems found so far.
\<close>

definition validate_item :: "string list \<Rightarrow> LineItem \<Rightarrow> string list" where
  "validate_item problems it =
     (let problems = (if sku it = [] then problems @ [''Item sku is missing''] else problems);
          problems = (if qty it \<le> 0 then problems @ [''Invalid qty for '' @ sku it]
                      else problems);
          problems = (if unit_price it < Finite 0 then problems @ [''Invalid price for '' @ sku it]
                      else problems);
          problems = (if category it \<notin> set [''book'', ''food'', ''electronics'', ''other'']
                      then problems @ [''Unknown category for '' @ sku it] else problems)
      in problems)"

fun validate_items :: "string list \<Rightarrow> LineItem list \<Rightarrow> string list" where
  "validate_items problems [] = problems"
| "validate_items problems (it # its) = validate_items (validate_item problems it) its"

fun validate :: "Invoice option \<Rightarrow> string list" where
  "validate None = [''Invoice is missing'']"
| "validate (Some i) =
     (let problems = [];
          problems = (if invoice_id i = [] then problems @ [''Missing invoice_id'']
                      else problems);
          problems = (if customer_id i = [] then problems @ [''Missing customer_id'']
                      else problems);
          problems = (if items i = [] then problems @ [''Invoice must contain items'']
                      else problems)
      in validate_items problems (items i))"

subsection \<open>The steps of the calculation\<close>

text \<open>
  The loop of \<^verbatim>\<open>_calculate_subtotal_and_fragile_fee\<close>. Both products have the quantity,
  an \<^verbatim>\<open>int\<close>, as their second operand, and convert it first.
\<close>

fun subtotal_loop :: "pyfloat \<times> pyfloat \<Rightarrow> LineItem list \<Rightarrow> error + pyfloat \<times> pyfloat"
  where
  "subtotal_loop (subtotal, fragile_fee) [] = Inr (subtotal, fragile_fee)"
| "subtotal_loop (subtotal, fragile_fee) (it # its) =
     (case float_of_int (qty it) of
        Inl e \<Rightarrow> Inl e
      | Inr q \<Rightarrow>
          (let line = unit_price it * q;
               subtotal = subtotal + line
           in if fragile it then
                (case float_of_int (qty it) of
                   Inl e \<Rightarrow> Inl e
                 | Inr q' \<Rightarrow> subtotal_loop (subtotal, fragile_fee + Finite 5.0 * q') its)
              else subtotal_loop (subtotal, fragile_fee) its))"

definition calculate_subtotal_and_fragile_fee ::
  "LineItem list \<Rightarrow> error + pyfloat \<times> pyfloat" where
  "calculate_subtotal_and_fragile_fee its = subtotal_loop (Finite 0.0, Finite 0.0) its"

definition calculate_shipping :: "string \<Rightarrow> pyfloat \<Rightarrow> pyfloat" where
  "calculate_shipping cntry subtotal =
     (case shipping_rates cntry of
        Some (threshold, base_fee) \<Rightarrow> if subtotal < threshold then base_fee else Finite 0
      | None \<Rightarrow> if subtotal < Finite 200 then Finite 25 else Finite 0)"

definition calculate_base_discount :: "string \<Rightarrow> pyfloat \<Rightarrow> pyfloat" where
  "calculate_base_discount mship subtotal =
     (if mship = ''gold'' then subtotal * Finite 0.03
      else if mship = ''platinum'' then subtotal * Finite 0.05
      else if Finite 3000 < subtotal then Finite 20
      else Finite 0.0)"

definition apply_coupon :: "string option \<Rightarrow> pyfloat \<Rightarrow> pyfloat \<times> string list" where
  "apply_coupon cpn subtotal =
     (case cpn of
        None \<Rightarrow> (Finite 0.0, [])
      | Some c \<Rightarrow>
          if strip c \<noteq> [] then
            (let code = strip c
             in case coupon_rate code of
                  Some rate \<Rightarrow> (subtotal * rate, [])
                | None \<Rightarrow> (Finite 0.0, [''Unknown coupon'']))
          else (Finite 0.0, []))"

definition calculate_tax :: "string \<Rightarrow> pyfloat \<Rightarrow> pyfloat \<Rightarrow> pyfloat" where
  "calculate_tax cntry subtotal discount =
     (let rate = (case tax_rates cntry of Some r \<Rightarrow> r | None \<Rightarrow> Finite 0.05)
      in (subtotal - discount) * rate)"

subsection \<open>The entry point\<close>

text \<open>
  \<^verbatim>\<open>compute_total\<close>. After the validation has passed the invoice is read; reading a
  missing invoice would raise \<^verbatim>\<open>AttributeError\<close> (the validation excludes it). An
  exception of the subtotal step leaves the function.
\<close>

definition compute_total :: "Invoice option \<Rightarrow> error + pyfloat \<times> string list" where
  "compute_total inv_opt =
     (let warnings = [];
          problems = validate inv_opt
      in if problems \<noteq> [] then Inl (ValueError (join ''; '' problems))
         else
           (case inv_opt of
              None \<Rightarrow> Inl AttributeError
            | Some i \<Rightarrow>
                (case calculate_subtotal_and_fragile_fee (items i) of
                   Inl e \<Rightarrow> Inl e
                 | Inr (subtotal, fragile_fee) \<Rightarrow>
                     (let shipping = calculate_shipping (country i) subtotal;
                          discount = calculate_base_discount (membership i) subtotal;
                          (coupon_discount, coupon_warnings) =
                            apply_coupon (coupon i) subtotal;
                          warnings = warnings @ coupon_warnings;
                          discount = discount + coupon_discount;
                          tax = calculate_tax (country i) subtotal discount;
                          total = subtotal + shipping + fragile_fee + tax - discount;
                          total = builtin_max total (Finite 0.0);
                          warnings =
                            (if Finite 10000 < subtotal
                                \<and> membership i \<notin> set [''gold'', ''platinum'']
                             then warnings @ [''Consider membership upgrade'']
                             else warnings)
                      in Inr (total, warnings)))))"

subsection \<open>Notions for the statements\<close>

text \<open>The value of a finite float (0 for the others).\<close>

fun finite_value :: "pyfloat \<Rightarrow> real" where
  "finite_value (Finite r) = r"
| "finite_value _ = 0"

text \<open>A float that is plus infinity or a finite value of at least \<open>s\<close> within the range.\<close>

fun at_least :: "real \<Rightarrow> pyfloat \<Rightarrow> bool" where
  "at_least s (Finite r) = (s \<le> r \<and> r < float_limit)"
| "at_least s PosInf = True"
| "at_least s _ = False"

subsection \<open>Sample invoices\<close>

text \<open>Concrete invoices on which the theorems below are instantiated.\<close>

definition sample_us_book :: Invoice where
  "sample_us_book =
     \<lparr>invoice_id = ''INV-3'', customer_id = ''CUST-3'', country = ''US'',
      membership = ''none'', coupon = None,
      items = [\<lparr>sku = ''A'', category = ''book'', unit_price = Finite 100, qty = 2,
                 fragile = True\<rparr>]\<rparr>"

definition sample_th_platinum :: Invoice where
  "sample_th_platinum =
     \<lparr>invoice_id = ''INV-7'', customer_id = ''CUST-7'', country = ''TH'',
      membership = ''platinum'', coupon = Some ''VIP20'',
      items = [\<lparr>sku = ''P'', category = ''electronics'', unit_price = Finite 1000, qty = 1,
                 fragile = False\<rparr>]\<rparr>"

definition sample_bad_item :: Invoice where
  "sample_bad_item =
     \<lparr>invoice_id = ''INV-9'', customer_id = ''CUST-9'', country = ''JP'',
      membership = ''gold'', coupon = None,
      items = [\<lparr>sku = ''B'', category = ''food'', unit_price = Finite 10, qty = 1,
                 fragile = False\<rparr>,
               \<lparr>sku = [], category = ''toy'', unit_price = Finite 5, qty = 0,
                 fragile = False\<rparr>]\<rparr>"

definition sample_big_order :: Invoice where
  "sample_big_order =
     \<lparr>invoice_id = ''INV-4'', customer_id = ''CUST-4'', country = ''DE'',
      membership = ''none'', coupon = Some ''SPRING'',
      items = [\<lparr>sku = ''TV'', category = ''electronics'', unit_price = Finite 4000, qty = 3,
                 fragile = True\<rparr>]\<rparr>"


definition sample_huge_price :: Invoice where
  "sample_huge_price =
     \<lparr>invoice_id = ''INV-6'', customer_id = ''CUST-6'', country = ''US'',
      membership = ''gold'', coupon = None,
      items = [\<lparr>sku = ''G'', category = ''other'', unit_price = Finite (10 ^ 308), qty = 10,
                 fragile = False\<rparr>]\<rparr>"

section \<open>Facts about the building blocks\<close>

lemmas op_defs =
  plus_pyfloat_def minus_pyfloat_def times_pyfloat_def less_pyfloat_def less_eq_pyfloat_def

lemmas step_defs =
  calculate_subtotal_and_fragile_fee_def calculate_shipping_def shipping_rates_def
  calculate_base_discount_def apply_coupon_def coupon_rate_def calculate_tax_def tax_rates_def
  strip_def lstrip_def rstrip_def isspace_def float_of_int_def builtin_max_def op_defs
  to_float_def float_limit_def

subsection \<open>The range of the floats\<close>

lemma float_limit_large: "10 ^ 300 < float_limit"
  by (simp add: float_limit_def)

lemma float_limit_pos: "0 < float_limit"
  using float_limit_large by (simp add: order.strict_trans2 [rotated])

lemma at_least_iff:
  "at_least s x \<longleftrightarrow> x = PosInf \<or> (\<exists>r. x = Finite r \<and> s \<le> r \<and> r < float_limit)"
  by (cases x) simp_all

declare at_least.simps [simp del]

lemma to_float_Finite: "- float_limit < x \<Longrightarrow> x < float_limit \<Longrightarrow> to_float x = Finite x"
  by (simp add: to_float_def)

lemma to_float_at_least: "0 \<le> s \<Longrightarrow> s \<le> x \<Longrightarrow> at_least s (to_float x)"
  using float_limit_pos by (auto simp: to_float_def at_least_iff)

lemma at_least_add:
  assumes "at_least s x" and "at_least 0 y" and "0 \<le> s"
  shows "at_least s (x + y)"
proof -
  consider "x = PosInf \<or> y = PosInf"
    | r ra where "x = Finite r" "y = Finite ra" "s \<le> r" "0 \<le> ra"
    using assms(1,2) by (auto simp: at_least_iff)
  then show ?thesis
  proof cases
    case 1
    with assms(1,2) have "x + y = PosInf" by (auto simp: at_least_iff plus_pyfloat_def)
    then show ?thesis by (simp add: at_least_iff)
  next
    case 2
    then have "x + y = to_float (r + ra)" by (simp add: plus_pyfloat_def)
    with to_float_at_least [of s "r + ra"] assms(3) 2 show ?thesis by simp
  qed
qed

lemma at_least_sub:
  assumes "at_least s x" and "0 \<le> d" and "d \<le> s"
  shows "at_least 0 (x - Finite d)"
proof -
  consider "x = PosInf" | r where "x = Finite r" "s \<le> r"
    using assms(1) by (auto simp: at_least_iff)
  then show ?thesis
  proof cases
    case 1
    then have "x - Finite d = PosInf" by (simp add: minus_pyfloat_def)
    then show ?thesis by (simp add: at_least_iff)
  next
    case 2
    then have "x - Finite d = to_float (r - d)" by (simp add: minus_pyfloat_def)
    with to_float_at_least [of 0 "r - d"] assms(3) 2 show ?thesis by simp
  qed
qed

lemma at_least_Finite: "s \<le> r \<Longrightarrow> r < float_limit \<Longrightarrow> at_least s (Finite r)"
  by (simp add: at_least_iff)

text \<open>On such a float the clamp of the total changes nothing.\<close>

lemma at_least_ge_zero: "at_least 0 x \<Longrightarrow> Finite 0 \<le> x \<and> builtin_max x (Finite 0) = x"
  by (auto simp: at_least_iff less_eq_pyfloat_def builtin_max_def less_pyfloat_def)

lemma builtin_max_zero_cases:
  "builtin_max x (Finite 0) =
     (case x of Finite r \<Rightarrow> Finite (max r 0) | PosInf \<Rightarrow> PosInf | NegInf \<Rightarrow> Finite 0
      | NaN \<Rightarrow> NaN)"
  by (cases x) (simp_all add: builtin_max_def less_pyfloat_def max_def)

lemma builtin_max_zero_nonneg:
  "builtin_max x (Finite 0) = NaN \<or> Finite 0 \<le> builtin_max x (Finite 0)"
  by (cases x) (simp_all add: builtin_max_zero_cases less_eq_pyfloat_def)

text \<open>Small values are far inside the range.\<close>

lemma to_float_small: "\<bar>x\<bar> \<le> 2 ^ 64 \<Longrightarrow> to_float x = Finite x"
proof -
  assume "\<bar>x\<bar> \<le> 2 ^ 64"
  moreover have "(2::real) ^ 64 < 10 ^ 300" by simp
  ultimately have "\<bar>x\<bar> < float_limit" using float_limit_large by linarith
  then have "- float_limit < x" and "x < float_limit" by auto
  then show ?thesis by (rule to_float_Finite)
qed

lemma float_of_int_small: "\<bar>n\<bar> \<le> 2 ^ 64 \<Longrightarrow> float_of_int n = Inr (Finite (of_int n))"
proof -
  assume "\<bar>n\<bar> \<le> 2 ^ 64"
  then have "\<bar>real_of_int n\<bar> \<le> 2 ^ 64" by (metis of_int_abs of_int_le_numeral_power_cancel_iff)
  moreover have "(2::real) ^ 64 < 10 ^ 300" by simp
  ultimately have "\<bar>real_of_int n\<bar> < float_limit" using float_limit_large by linarith
  then show ?thesis by (simp add: float_of_int_def)
qed

lemmas eval_defs =
  calculate_subtotal_and_fragile_fee_def calculate_shipping_def shipping_rates_def
  calculate_base_discount_def apply_coupon_def coupon_rate_def calculate_tax_def tax_rates_def
  strip_def lstrip_def rstrip_def isspace_def builtin_max_def op_defs
  to_float_small float_of_int_small

text \<open>Finite products with a rate are exact; a negative float times a rate is negative.\<close>

lemma scale_exact:
  assumes "\<bar>a\<bar> < float_limit" and "0 \<le> r" and "r \<le> 1"
  shows "Finite a * Finite r = Finite (a * r)"
proof -
  have "\<bar>a * r\<bar> = \<bar>a\<bar> * r" using assms(2) by (simp add: abs_mult)
  also have "\<dots> \<le> \<bar>a\<bar> * 1" using assms(3) by (intro mult_left_mono) auto
  finally have "\<bar>a * r\<bar> < float_limit" using assms(1) by simp
  then have "- float_limit < a * r" and "a * r < float_limit" by auto
  then show ?thesis by (simp add: times_pyfloat_def to_float_Finite)
qed

lemma negative_times_rate:
  assumes "x < Finite 0" and "0 < r"
  shows "x * Finite r < Finite 0"
proof (cases x)
  case (Finite a)
  with assms have "a * r < 0" by (simp add: less_pyfloat_def mult_less_0_iff)
  with float_limit_pos show ?thesis
    using Finite by (simp add: times_pyfloat_def less_pyfloat_def to_float_def)
next
  case PosInf
  with assms show ?thesis by (simp add: less_pyfloat_def)
next
  case NegInf
  with assms show ?thesis by (simp add: less_pyfloat_def times_pyfloat_def)
next
  case NaN
  with assms show ?thesis by (simp add: less_pyfloat_def)
qed

lemma less_imp_diff_negative:
  assumes "s < d"
  shows "s - d < Finite 0"
proof (cases s; cases d)
  fix a b assume "s = Finite a" "d = Finite b"
  with assms float_limit_pos show ?thesis
    by (simp add: less_pyfloat_def minus_pyfloat_def to_float_def)
qed (use assms in \<open>simp_all add: less_pyfloat_def minus_pyfloat_def\<close>)

subsection \<open>The tables, as case distinctions\<close>

lemma shipping_rates_cases:
  "shipping_rates c =
     (if c = ''TH'' then Some (Finite 500, Finite 60)
      else if c = ''JP'' then Some (Finite 4000, Finite 600)
      else if c = ''US'' then Some (Finite 100, Finite 15)
      else None)"
  by (simp add: shipping_rates_def)

lemma tax_rates_cases:
  "tax_rates c =
     (if c = ''TH'' then Some (Finite 0.07)
      else if c = ''JP'' then Some (Finite 0.10)
      else if c = ''US'' then Some (Finite 0.08)
      else None)"
  by (simp add: tax_rates_def)

lemma coupon_rate_cases:
  "coupon_rate c =
     (if c = ''WELCOME10'' then Some (Finite 0.10)
      else if c = ''VIP20'' then Some (Finite 0.20)
      else if c = ''STUDENT5'' then Some (Finite 0.05)
      else None)"
  by (simp add: coupon_rate_def)

lemma calculate_tax_cases:
  "calculate_tax c s d =
     (s - d) * (if c = ''TH'' then Finite 0.07
                else if c = ''JP'' then Finite 0.10
                else if c = ''US'' then Finite 0.08
                else Finite 0.05)"
  by (simp add: calculate_tax_def tax_rates_cases)

subsection \<open>Trimming\<close>

lemma all_dropWhile: "(\<forall>x \<in> set (dropWhile P xs). P x) \<longleftrightarrow> (\<forall>x \<in> set xs. P x)"
  by (induction xs) auto

text \<open>The trimmed string is empty exactly when the string is empty or all whitespace.\<close>

lemma strip_empty_iff: "strip s = [] \<longleftrightarrow> (\<forall>c \<in> set s. isspace c)"
  by (simp add: strip_def lstrip_def rstrip_def all_dropWhile)

lemma rstrip_decomp: "\<exists>post. s = rstrip s @ post \<and> (\<forall>c \<in> set post. isspace c)"
proof -
  have "rev s = takeWhile isspace (rev s) @ dropWhile isspace (rev s)" by simp
  then have "s = rev (dropWhile isspace (rev s)) @ rev (takeWhile isspace (rev s))"
    by (metis rev_append rev_rev_ident)
  moreover have "\<forall>c \<in> set (rev (takeWhile isspace (rev s))). isspace c"
    by (auto dest: set_takeWhileD)
  ultimately show ?thesis unfolding rstrip_def by blast
qed

text \<open>
  \<open>strip\<close> cuts a whitespace prefix and a whitespace suffix off, and what is left
  neither starts nor ends with whitespace.
\<close>

lemma strip_decomp:
  "\<exists>pre post. s = pre @ strip s @ post \<and>
     (\<forall>c \<in> set pre. isspace c) \<and> (\<forall>c \<in> set post. isspace c)"
proof -
  obtain post where p: "lstrip s = rstrip (lstrip s) @ post" "\<forall>c \<in> set post. isspace c"
    using rstrip_decomp [of "lstrip s"] by blast
  have "s = takeWhile isspace s @ lstrip s" by (simp add: lstrip_def)
  with p(1) have "s = takeWhile isspace s @ strip s @ post" by (simp add: strip_def)
  moreover have "\<forall>c \<in> set (takeWhile isspace s). isspace c" by (auto dest: set_takeWhileD)
  ultimately show ?thesis using p(2) by blast
qed

lemma strip_ends:
  assumes "strip s \<noteq> []"
  shows "\<not> isspace (hd (strip s)) \<and> \<not> isspace (last (strip s))"
proof -
  let ?l = "lstrip s"
  from assms have ne: "?l \<noteq> []" by (auto simp: strip_def rstrip_def)
  have h: "\<not> isspace (hd ?l)" using ne unfolding lstrip_def by (simp add: hd_dropWhile)
  have d: "dropWhile isspace (rev ?l) \<noteq> []" using assms by (simp add: strip_def rstrip_def)
  then have "\<not> isspace (hd (dropWhile isspace (rev ?l)))" by (simp add: hd_dropWhile)
  then have l: "\<not> isspace (last (strip s))" using d by (simp add: strip_def rstrip_def last_rev)
  obtain post where p: "?l = strip s @ post" using rstrip_decomp [of ?l] by (auto simp: strip_def)
  then have "hd ?l = hd (strip s)" using assms by (metis hd_append2)
  with h l show ?thesis by simp
qed

subsection \<open>The validation loop\<close>

lemma validate_item_append: "validate_item ps it = ps @ validate_item [] it"
  by (simp add: validate_item_def Let_def)

lemma validate_items_concat:
  "validate_items ps its = ps @ concat (map (validate_item []) its)"
proof (induction its arbitrary: ps)
  case Nil
  show ?case by simp
next
  case (Cons it its)
  show ?case
    using Cons.IH [of "validate_item ps it"] validate_item_append [of ps it] by simp
qed

text \<open>
  The problems of an invoice: those of its header, then those of each item in turn, none
  of them suppressing another.
\<close>

lemma validate_Some_concat:
  "validate (Some i) =
     (if invoice_id i = [] then [''Missing invoice_id''] else []) @
     (if customer_id i = [] then [''Missing customer_id''] else []) @
     (if items i = [] then [''Invoice must contain items''] else []) @
     concat (map (validate_item []) (items i))"
  by (simp add: validate_items_concat [of _ "items i"])

text \<open>Every joined string occurs in the joined message.\<close>

lemma join_sublist: "p \<in> set ps \<Longrightarrow> sublist p (join sep ps)"
proof (induction sep ps rule: join.induct)
  case (1 sep)
  then show ?case by simp
next
  case (2 sep x)
  then show ?case by simp
next
  case (3 sep x y ys)
  then show ?case
    by (auto simp: sublist_append)
qed

text \<open>An invoice without problems has only items with a positive quantity and a price
  that is not below 0 (a NaN price is not).\<close>

lemma validate_item_empty:
  "validate_item [] it = [] \<Longrightarrow>
     sku it \<noteq> [] \<and> 0 < qty it \<and> \<not> unit_price it < Finite 0 \<and>
     category it \<in> {''book'', ''food'', ''electronics'', ''other''}"
  by (simp add: validate_item_def Let_def split: if_splits)

lemma validate_items_valid:
  assumes "validate (Some i) = []" and "it \<in> set (items i)"
  shows "0 < qty it \<and> \<not> unit_price it < Finite 0"
proof -
  from assms(1) have "concat (map (validate_item []) (items i)) = []"
    unfolding validate_Some_concat by simp
  with assms(2) have "validate_item [] it = []" by auto
  from validate_item_empty [OF this] show ?thesis by simp
qed

subsection \<open>The subtotal loop\<close>

lemma float_of_int_ok:
  "\<bar>of_int n\<bar> < float_limit \<Longrightarrow> float_of_int n = Inr (Finite (of_int n))"
  by (simp add: float_of_int_def)

lemma float_of_int_overflow:
  "\<not> \<bar>of_int n\<bar> < float_limit \<Longrightarrow> float_of_int n = Inl OverflowError"
  by (simp add: float_of_int_def)

text \<open>With quantities in the range, the loop returns the two sums, added from the left.\<close>

lemma subtotal_loop_folds:
  "\<forall>it \<in> set its. \<bar>of_int (qty it)\<bar> < float_limit \<Longrightarrow>
   subtotal_loop (a, b) its =
     Inr (foldl (+) a (map (\<lambda>it. unit_price it * Finite (of_int (qty it))) its),
          foldl (+) b (map (\<lambda>it. Finite 5 * Finite (of_int (qty it))) (filter fragile its)))"
  by (induction its arbitrary: a b) (simp_all add: float_of_int_ok Let_def)

lemma subtotal_loop_overflow:
  "\<exists>it \<in> set its. \<not> \<bar>of_int (qty it)\<bar> < float_limit \<Longrightarrow>
   subtotal_loop (a, b) its = Inl OverflowError"
proof (induction its arbitrary: a b)
  case Nil
  then show ?case by simp
next
  case (Cons it its)
  show ?case
  proof (cases "\<bar>of_int (qty it)\<bar> < float_limit")
    case True
    with Cons.prems have "\<exists>it \<in> set its. \<not> \<bar>of_int (qty it)\<bar> < float_limit" by auto
    with Cons.IH True show ?thesis by (simp add: float_of_int_ok Let_def)
  next
    case False
    then show ?thesis by (simp add: float_of_int_overflow)
  qed
qed

lemma calculate_subtotal_returns:
  "\<forall>it \<in> set its. \<bar>of_int (qty it)\<bar> < float_limit \<Longrightarrow>
   \<exists>subtotal fragile_fee. calculate_subtotal_and_fragile_fee its = Inr (subtotal, fragile_fee)"
  by (simp add: calculate_subtotal_and_fragile_fee_def subtotal_loop_folds)

text \<open>
  On validated items the sums cannot go below 0: the fragile fee is a finite value of at
  least 0 or plus infinity, and so is the subtotal unless it is NaN.
\<close>

lemma line_nonneg:
  assumes "0 < q" and "\<not> p < Finite 0"
  shows "p * Finite q = NaN \<or> at_least 0 (p * Finite q)"
proof (cases p)
  case (Finite x)
  with assms have "0 \<le> x * q" by (simp add: less_pyfloat_def)
  from to_float_at_least [OF _ this] Finite show ?thesis by (simp add: times_pyfloat_def)
next
  case PosInf
  with assms show ?thesis by (simp add: times_pyfloat_def at_least_iff)
next
  case NegInf
  with assms show ?thesis by (simp add: less_pyfloat_def)
next
  case NaN
  then show ?thesis by (simp add: times_pyfloat_def)
qed

lemma sum_nonneg:
  assumes "a = NaN \<or> at_least 0 a" and "l = NaN \<or> at_least 0 l"
  shows "a + l = NaN \<or> at_least 0 (a + l)"
  using assms at_least_add [of 0 a l]
  by (auto simp: plus_pyfloat_def) (auto simp: at_least_iff)

lemma subtotal_loop_nonneg:
  assumes "\<forall>it \<in> set its. 0 < qty it \<and> \<not> unit_price it < Finite 0"
    and "a = NaN \<or> at_least 0 a" and "at_least 0 b"
    and "subtotal_loop (a, b) its = Inr (s, f)"
  shows "(s = NaN \<or> at_least 0 s) \<and> at_least 0 f"
  using assms
proof (induction its arbitrary: a b)
  case Nil
  then show ?case by simp
next
  case (Cons it its)
  from Cons.prems(4) obtain q where q: "float_of_int (qty it) = Inr q"
    by (cases "float_of_int (qty it)") auto
  then have qv: "q = Finite (of_int (qty it))"
    by (auto simp: float_of_int_def split: if_splits)
  from Cons.prems(1) have pos: "0 < real_of_int (qty it)" and np: "\<not> unit_price it < Finite 0"
    by auto
  let ?a = "a + unit_price it * q"
  let ?b = "if fragile it then b + Finite 5 * q else b"
  have a': "?a = NaN \<or> at_least 0 ?a"
    using sum_nonneg [OF Cons.prems(2) line_nonneg [OF pos np]] qv by simp
  have "at_least 0 (Finite 5 * q)"
    using pos to_float_at_least [of 0 "5 * real_of_int (qty it)"] qv
    by (simp add: times_pyfloat_def)
  from at_least_add [OF Cons.prems(3) this] Cons.prems(3) have b': "at_least 0 ?b"
    by simp
  have "subtotal_loop (?a, ?b) its = Inr (s, f)"
    using Cons.prems(4) q by (simp add: Let_def split: if_splits)
  from Cons.IH [OF _ a' b' this] Cons.prems(1) show ?case by simp
qed

text \<open>
  Where all prices are finite and the absolute values of the lines, and of the fees, add
  up to less than the limit, nothing overflows and the loop returns the exact sums.
\<close>

lemma sum_list_abs_nonneg: "(0::real) \<le> (\<Sum>x\<leftarrow>xs. \<bar>f x\<bar>)"
  by (induction xs) auto

lemma subtotal_loop_exact:
  assumes "\<forall>it \<in> set its. (\<exists>p. unit_price it = Finite p)
             \<and> \<bar>real_of_int (qty it)\<bar> < float_limit"
    and "\<bar>a\<bar> + (\<Sum>it\<leftarrow>its. \<bar>finite_value (unit_price it) * of_int (qty it)\<bar>) < float_limit"
    and "\<bar>b\<bar> + (\<Sum>it\<leftarrow>filter fragile its. \<bar>5 * of_int (qty it)\<bar>) < float_limit"
  shows "subtotal_loop (Finite a, Finite b) its =
     Inr (Finite (a + (\<Sum>it\<leftarrow>its. finite_value (unit_price it) * of_int (qty it))),
          Finite (b + (\<Sum>it\<leftarrow>filter fragile its. 5 * of_int (qty it))))"
  using assms
proof (induction its arbitrary: a b)
  case Nil
  then show ?case by simp
next
  case (Cons it its)
  let ?q = "real_of_int (qty it)"
  let ?S = "\<Sum>it\<leftarrow>its. \<bar>finite_value (unit_price it) * of_int (qty it)\<bar>"
  let ?F = "\<Sum>it\<leftarrow>filter fragile its. \<bar>5 * real_of_int (qty it)\<bar>"
  from Cons.prems(1) obtain p where p: "unit_price it = Finite p" and q: "\<bar>?q\<bar> < float_limit"
    by auto
  have conv: "float_of_int (qty it) = Inr (Finite ?q)"
    using q by (simp add: float_of_int_def)
  have S: "0 \<le> ?S" and F: "0 \<le> ?F" by (rule sum_list_abs_nonneg)+
  have a1: "\<bar>a\<bar> + \<bar>p * ?q\<bar> + ?S < float_limit" using Cons.prems(2) p by simp
  then have "\<bar>p * ?q\<bar> < float_limit" using S by linarith
  then have line: "Finite p * Finite ?q = Finite (p * ?q)"
    by (simp add: times_pyfloat_def to_float_Finite)
  have "\<bar>a + p * ?q\<bar> < float_limit" using a1 S by linarith
  then have suma: "Finite a + Finite (p * ?q) = Finite (a + p * ?q)"
    by (simp add: plus_pyfloat_def to_float_Finite)
  have a2: "\<bar>a + p * ?q\<bar> + ?S < float_limit" using a1 by linarith
  have rest: "\<forall>it \<in> set its. (\<exists>p. unit_price it = Finite p)
             \<and> \<bar>real_of_int (qty it)\<bar> < float_limit"
    using Cons.prems(1) by simp
  show ?case
  proof (cases "fragile it")
    case True
    have b1: "\<bar>b\<bar> + \<bar>5 * ?q\<bar> + ?F < float_limit" using Cons.prems(3) True by simp
    then have "\<bar>5 * ?q\<bar> < float_limit" using F by linarith
    then have fee: "Finite 5 * Finite ?q = Finite (5 * ?q)"
      by (simp add: times_pyfloat_def to_float_Finite)
    have "\<bar>b + 5 * ?q\<bar> < float_limit" using b1 F by linarith
    then have sumb: "Finite b + Finite (5 * ?q) = Finite (b + 5 * ?q)"
      by (simp add: plus_pyfloat_def to_float_Finite)
    have b2: "\<bar>b + 5 * ?q\<bar> + ?F < float_limit" using b1 by linarith
    from Cons.IH [OF rest a2 b2] show ?thesis
      using conv p line suma fee sumb True by (simp add: Let_def algebra_simps)
  next
    case False
    have b2: "\<bar>b\<bar> + ?F < float_limit" using Cons.prems(3) False by simp
    from Cons.IH [OF rest a2 b2] show ?thesis
      using conv p line suma False by (simp add: Let_def algebra_simps)
  qed
qed

subsection \<open>The steps on a finite subtotal\<close>

text \<open>
  On a finite subtotal of at least 0 every step is finite, the discount is between 0 and
  the subtotal, and the sum that \<open>compute_total\<close> clamps is itself at least 0.
\<close>

lemma scale_finite:
  assumes "0 \<le> s" and "s < float_limit" and "0 \<le> r" and "r \<le> 1"
  shows "Finite s * Finite r = Finite (s * r)"
proof -
  have "s * r \<le> s * 1" using assms(1,4) by (intro mult_left_mono) auto
  with assms(2) have "s * r < float_limit" by simp
  moreover have "0 \<le> s * r" using assms(1,3) by simp
  with float_limit_pos have "- float_limit < s * r" by simp
  ultimately show ?thesis by (simp add: times_pyfloat_def to_float_Finite)
qed

lemma shipping_finite: "\<exists>sh. calculate_shipping c (Finite s) = Finite sh \<and> 0 \<le> sh"
  by (simp add: calculate_shipping_def shipping_rates_cases less_pyfloat_def)

lemma base_discount_finite:
  assumes "0 \<le> s" and "s < float_limit"
  shows "calculate_base_discount m (Finite s) =
     Finite (if m = ''gold'' then s * 0.03 else if m = ''platinum'' then s * 0.05
             else if 3000 < s then 20 else 0)"
  using scale_finite [OF assms, of "0.03"] scale_finite [OF assms, of "0.05"]
  by (simp add: calculate_base_discount_def less_pyfloat_def)

lemma coupon_discount_finite:
  assumes "0 \<le> s" and "s < float_limit"
  shows "fst (apply_coupon cp (Finite s)) =
     Finite (case cp of None \<Rightarrow> 0
             | Some c \<Rightarrow> if strip c = ''WELCOME10'' then s * 0.10
                         else if strip c = ''VIP20'' then s * 0.20
                         else if strip c = ''STUDENT5'' then s * 0.05 else 0)"
  using scale_finite [OF assms, of "0.10"] scale_finite [OF assms, of "0.20"]
    scale_finite [OF assms, of "0.05"]
  by (simp add: apply_coupon_def coupon_rate_cases split: option.splits)

lemma discount_finite:
  assumes "0 \<le> s" and "s < float_limit"
  shows "\<exists>d. calculate_base_discount m (Finite s) + fst (apply_coupon cp (Finite s)) = Finite d
           \<and> 0 \<le> d \<and> d \<le> s"
proof -
  define bd where "bd = (if m = ''gold'' then s * 0.03 else if m = ''platinum'' then s * 0.05
             else if 3000 < s then 20 else 0)"
  define cd where "cd = (case cp of None \<Rightarrow> 0
             | Some c \<Rightarrow> if strip c = ''WELCOME10'' then s * 0.10
                         else if strip c = ''VIP20'' then s * 0.20
                         else if strip c = ''STUDENT5'' then s * 0.05 else 0)"
  have bd: "calculate_base_discount m (Finite s) = Finite bd" "0 \<le> bd" "bd \<le> 0.8 * s"
    using assms(1) base_discount_finite [OF assms, of m] by (simp_all add: bd_def)
  have cd: "fst (apply_coupon cp (Finite s)) = Finite cd" "0 \<le> cd" "cd \<le> 0.2 * s"
    using assms(1) coupon_discount_finite [OF assms, of cp]
    by (simp_all add: cd_def split: option.splits)
  have le: "bd + cd \<le> s" using bd(3) cd(3) by simp
  with assms(2) bd(2) cd(2) float_limit_pos have "to_float (bd + cd) = Finite (bd + cd)"
    by (intro to_float_Finite) auto
  with bd cd le show ?thesis by (simp add: plus_pyfloat_def)
qed

lemma tax_finite:
  assumes "0 \<le> d" and "d \<le> s" and "s < float_limit"
  shows "\<exists>t. calculate_tax c (Finite s) (Finite d) = Finite t \<and> 0 \<le> t \<and> t < float_limit"
proof -
  have "to_float (s - d) = Finite (s - d)"
    using assms float_limit_pos by (intro to_float_Finite) auto
  then have sub: "Finite s - Finite d = Finite (s - d)" by (simp add: minus_pyfloat_def)
  have r: "0 \<le> s - d" "s - d < float_limit" using assms by auto
  define rate :: real where
    "rate = (if c = ''TH'' then 0.07 else if c = ''JP'' then 0.10
             else if c = ''US'' then 0.08 else 0.05)"
  have rate: "(case tax_rates c of Some r \<Rightarrow> r | None \<Rightarrow> Finite 0.05) = Finite rate"
    "0 \<le> rate" "rate \<le> 1"
    by (simp_all add: rate_def tax_rates_cases)
  have "(s - d) * rate \<le> (s - d) * 1" using r(1) rate(3) by (intro mult_left_mono) auto
  with r(2) have "(s - d) * rate < float_limit" by simp
  moreover have "0 \<le> (s - d) * rate" using r(1) rate(2) by simp
  ultimately show ?thesis
    using scale_finite [OF r rate(2,3)] rate(1) sub by (simp add: calculate_tax_def)
qed

lemma total_at_least:
  assumes "0 \<le> s" and "s < float_limit" and "at_least 0 ff"
  shows "at_least 0
     (Finite s + calculate_shipping c (Finite s) + ff
        + calculate_tax c (Finite s)
            (calculate_base_discount m (Finite s) + fst (apply_coupon cp (Finite s)))
        - (calculate_base_discount m (Finite s) + fst (apply_coupon cp (Finite s))))"
proof -
  obtain sh where sh: "calculate_shipping c (Finite s) = Finite sh" "0 \<le> sh"
    using shipping_finite by blast
  obtain d where d: "calculate_base_discount m (Finite s) + fst (apply_coupon cp (Finite s))
      = Finite d" "0 \<le> d" "d \<le> s"
    using discount_finite [OF assms(1,2)] by blast
  obtain t where t: "calculate_tax c (Finite s) (Finite d) = Finite t" "0 \<le> t" "t < float_limit"
    using tax_finite [OF d(2,3) assms(2)] by blast
  have "Finite s + Finite sh = to_float (s + sh)" by (simp add: plus_pyfloat_def)
  with to_float_at_least [OF assms(1), of "s + sh"] sh(2)
  have 1: "at_least s (Finite s + Finite sh)" by simp
  from at_least_add [OF 1 assms(3) assms(1)]
  have 2: "at_least s (Finite s + Finite sh + ff)" .
  from at_least_add [OF 2 at_least_Finite [OF t(2,3)] assms(1)]
  have 3: "at_least s (Finite s + Finite sh + ff + Finite t)" .
  from at_least_sub [OF 3 d(2,3)] show ?thesis by (simp add: sh d t)
qed

subsection \<open>Coupon warnings\<close>

lemma apply_coupon_warnings:
  "snd (apply_coupon cpn s) = [] \<or> snd (apply_coupon cpn s) = [''Unknown coupon'']"
  by (simp add: apply_coupon_def split: option.splits)

subsection \<open>The exits of the entry point\<close>

lemma compute_total_invalid:
  "validate inv_opt \<noteq> [] \<Longrightarrow>
     compute_total inv_opt = Inl (ValueError (join ''; '' (validate inv_opt)))"
  by (simp add: compute_total_def)

lemma compute_total_overflow:
  assumes "validate (Some i) = []"
    and "\<exists>it \<in> set (items i). \<not> \<bar>of_int (qty it)\<bar> < float_limit"
  shows "compute_total (Some i) = Inl OverflowError"
  using assms(1) subtotal_loop_overflow [OF assms(2)]
  by (simp add: compute_total_def calculate_subtotal_and_fragile_fee_def)

lemma compute_total_valid:
  assumes "validate (Some i) = []"
    and "calculate_subtotal_and_fragile_fee (items i) = Inr (subtotal, fragile_fee)"
  shows "compute_total (Some i) =
     (let shipping = calculate_shipping (country i) subtotal;
          discount = calculate_base_discount (membership i) subtotal
                       + fst (apply_coupon (coupon i) subtotal);
          tax = calculate_tax (country i) subtotal discount
      in Inr (builtin_max (subtotal + shipping + fragile_fee + tax - discount) (Finite 0),
              snd (apply_coupon (coupon i) subtotal)
                @ (if Finite 10000 < subtotal \<and> membership i \<noteq> ''gold''
                      \<and> membership i \<noteq> ''platinum''
                   then [''Consider membership upgrade''] else [])))"
  using assms
  by (simp add: compute_total_def Let_def case_prod_beta)

text \<open>
  A validated invoice with quantities in the range: the subtotal step returns, and so
  does the entry point.
\<close>

lemma compute_total_in_range:
  assumes "validate (Some i) = []"
    and "\<forall>it \<in> set (items i). \<bar>real_of_int (qty it)\<bar> < float_limit"
  shows "\<exists>subtotal fragile_fee.
     calculate_subtotal_and_fragile_fee (items i) = Inr (subtotal, fragile_fee) \<and>
     (subtotal = NaN \<or> at_least 0 subtotal) \<and> at_least 0 fragile_fee \<and>
     compute_total (Some i) =
       (let shipping = calculate_shipping (country i) subtotal;
            discount = calculate_base_discount (membership i) subtotal
                         + fst (apply_coupon (coupon i) subtotal);
            tax = calculate_tax (country i) subtotal discount
        in Inr (builtin_max (subtotal + shipping + fragile_fee + tax - discount) (Finite 0),
                snd (apply_coupon (coupon i) subtotal)
                  @ (if Finite 10000 < subtotal \<and> membership i \<noteq> ''gold''
                        \<and> membership i \<noteq> ''platinum''
                     then [''Consider membership upgrade''] else [])))"
proof -
  from calculate_subtotal_returns [OF assms(2)] obtain subtotal fragile_fee where
    c: "calculate_subtotal_and_fragile_fee (items i) = Inr (subtotal, fragile_fee)" by blast
  have v: "\<forall>it \<in> set (items i). 0 < qty it \<and> \<not> unit_price it < Finite 0"
    using validate_items_valid [OF assms(1)] by blast
  have "at_least 0 (Finite 0)" using float_limit_pos by (simp add: at_least_iff)
  with subtotal_loop_nonneg [OF v _ _ c [unfolded calculate_subtotal_and_fragile_fee_def]]
  have "(subtotal = NaN \<or> at_least 0 subtotal) \<and> at_least 0 fragile_fee" by simp
  with c compute_total_valid [OF assms(1) c] show ?thesis by blast
qed

text \<open>The validation reports a missing invoice, so the entry point never reads one.\<close>

lemma compute_total_no_AttributeError: "compute_total inv_opt \<noteq> Inl AttributeError"
proof (cases inv_opt)
  case None
  then show ?thesis by (simp add: compute_total_def)
next
  case (Some i)
  show ?thesis
  proof (cases "validate (Some i) = []")
    case True
    show ?thesis
    proof (cases "\<forall>it \<in> set (items i). \<bar>of_int (qty it)\<bar> < float_limit")
      case True
      from calculate_subtotal_returns [OF this] \<open>validate (Some i) = []\<close> Some show ?thesis
        by (auto simp: compute_total_def Let_def case_prod_beta)
    next
      case False
      with True have "compute_total (Some i) = Inl OverflowError"
        by (intro compute_total_overflow) auto
      with Some show ?thesis by simp
    qed
  next
    case False
    from compute_total_invalid [OF this] Some show ?thesis by simp
  qed
qed

section \<open>Validation failures\<close>




text \<open>
  C7: the validator does not stop at the first problem. The problems of an invoice are
  those of its header followed by those of every item; and when an item has an empty
  sku, a quantity of at most 0 and a category outside book, food, electronics and other,
  \<open>compute_total\<close> raises one \<open>ValueError\<close> whose message contains the three fragments
  "Item sku is missing", "Invalid qty for <sku>" and "Unknown category for <sku>".
\<close>

theorem validate_accumulates:
  assumes "it \<in> set (items i)" and "sku it = []" and "qty it \<le> 0"
    and "category it \<notin> {''book'', ''food'', ''electronics'', ''other''}"
  shows "\<exists>msg. compute_total (Some i) = Inl (ValueError msg) \<and>
           msg = join ''; '' (validate (Some i)) \<and>
           validate (Some i) =
             (if invoice_id i = [] then [''Missing invoice_id''] else []) @
             (if customer_id i = [] then [''Missing customer_id''] else []) @
             (if items i = [] then [''Invoice must contain items''] else []) @
             concat (map (validate_item []) (items i)) \<and>
           sublist ''Item sku is missing'' msg \<and>
           sublist (''Invalid qty for '' @ sku it) msg \<and>
           sublist (''Unknown category for '' @ sku it) msg"
proof -
  let ?a = "''Item sku is missing''"
  let ?b = "''Invalid qty for '' @ sku it"
  let ?c = "''Unknown category for '' @ sku it"
  have item: "{?a, ?b, ?c} \<subseteq> set (validate_item [] it)"
    using assms(2-4) by (simp add: validate_item_def Let_def)
  have "set (validate_item [] it) \<subseteq> set (validate (Some i))"
    using assms(1) unfolding validate_Some_concat by auto
  with item have a: "?a \<in> set (validate (Some i))" and b: "?b \<in> set (validate (Some i))"
    and c: "?c \<in> set (validate (Some i))"
    by blast+
  from a have "validate (Some i) \<noteq> []" by (metis empty_iff empty_set)
  from compute_total_invalid [OF this]
  have "compute_total (Some i) = Inl (ValueError (join ''; '' (validate (Some i))))" .
  moreover note join_sublist [OF a, of "''; ''"] join_sublist [OF b, of "''; ''"]
    join_sublist [OF c, of "''; ''"] validate_Some_concat [of i]
  ultimately show ?thesis by blast
qed

theorem validate_accumulates_witness:
  "compute_total (Some sample_bad_item) =
     Inl (ValueError ''Item sku is missing; Invalid qty for ; Unknown category for '') \<and>
   sublist ''Item sku is missing''
     ''Item sku is missing; Invalid qty for ; Unknown category for '' \<and>
   sublist ''Invalid qty for ''
     ''Item sku is missing; Invalid qty for ; Unknown category for '' \<and>
   sublist ''Unknown category for ''
     ''Item sku is missing; Invalid qty for ; Unknown category for ''"
proof -
  let ?it = "\<lparr>sku = [], category = ''toy'', unit_price = Finite 5, qty = 0, fragile = False\<rparr>"
  have v: "validate (Some sample_bad_item) =
             [''Item sku is missing'', ''Invalid qty for '', ''Unknown category for '']"
    by (simp add: sample_bad_item_def validate_item_def less_pyfloat_def)
  have "?it \<in> set (items sample_bad_item)" by (simp add: sample_bad_item_def)
  from validate_accumulates [OF this] show ?thesis
    unfolding v by simp
qed

section \<open>Subtotal and fragile fee\<close>

text \<open>
  C8: the invoice with the single item (sku A, book, unit price 100, quantity 2, fragile),
  country US, membership none and no coupon is priced at 226 with no warning, whatever
  its non-empty identifiers: subtotal 200, fragile fee 10, shipping 0, discount 0, tax 16.
  In general, with quantities in the range of the floats, the subtotal is the sum of unit
  price times quantity over the items and the fragile fee the sum of 5 times quantity
  over the fragile items, both added from the left in float arithmetic; they are the
  exact sums where the prices are finite and the absolute values of the lines, and of
  the fees, add up to less than the limit of the range.
\<close>

theorem scenario_three:
  "(iid \<noteq> [] \<and> cid \<noteq> [] \<longrightarrow>
      compute_total (Some \<lparr>invoice_id = iid, customer_id = cid, country = ''US'',
          membership = ''none'', coupon = None,
          items = [\<lparr>sku = ''A'', category = ''book'', unit_price = Finite 100, qty = 2,
                     fragile = True\<rparr>]\<rparr>) = Inr (Finite 226, [])) \<and>
   calculate_subtotal_and_fragile_fee
     [\<lparr>sku = ''A'', category = ''book'', unit_price = Finite 100, qty = 2, fragile = True\<rparr>]
     = Inr (Finite 200, Finite 10) \<and>
   calculate_shipping ''US'' (Finite 200) = Finite 0 \<and>
   calculate_base_discount ''none'' (Finite 200) = Finite 0 \<and>
   apply_coupon None (Finite 200) = (Finite 0, []) \<and>
   calculate_tax ''US'' (Finite 200) (Finite 0 + Finite 0) = Finite 16 \<and>
   ((\<forall>it \<in> set its. \<bar>real_of_int (qty it)\<bar> < float_limit) \<longrightarrow>
      calculate_subtotal_and_fragile_fee its =
        Inr (foldl (+) (Finite 0) (map (\<lambda>it. unit_price it * Finite (of_int (qty it))) its),
             foldl (+) (Finite 0)
               (map (\<lambda>it. Finite 5.0 * Finite (of_int (qty it))) (filter fragile its)))) \<and>
   ((\<forall>it \<in> set its. (\<exists>p. unit_price it = Finite p)
                     \<and> \<bar>real_of_int (qty it)\<bar> < float_limit) \<and>
    (\<Sum>it\<leftarrow>its. \<bar>finite_value (unit_price it) * of_int (qty it)\<bar>) < float_limit \<and>
    (\<Sum>it\<leftarrow>filter fragile its. \<bar>5.0 * of_int (qty it)\<bar>) < float_limit \<longrightarrow>
      calculate_subtotal_and_fragile_fee its =
        Inr (Finite (\<Sum>it\<leftarrow>its. finite_value (unit_price it) * of_int (qty it)),
             Finite (\<Sum>it\<leftarrow>filter fragile its. 5.0 * of_int (qty it))))"
proof -
  have folds: "(\<forall>it \<in> set its. \<bar>real_of_int (qty it)\<bar> < float_limit) \<longrightarrow>
      calculate_subtotal_and_fragile_fee its =
        Inr (foldl (+) (Finite 0) (map (\<lambda>it. unit_price it * Finite (of_int (qty it))) its),
             foldl (+) (Finite 0)
               (map (\<lambda>it. Finite 5.0 * Finite (of_int (qty it))) (filter fragile its)))"
    by (simp add: calculate_subtotal_and_fragile_fee_def subtotal_loop_folds)
  have exact: "(\<forall>it \<in> set its. (\<exists>p. unit_price it = Finite p)
                     \<and> \<bar>real_of_int (qty it)\<bar> < float_limit) \<and>
    (\<Sum>it\<leftarrow>its. \<bar>finite_value (unit_price it) * of_int (qty it)\<bar>) < float_limit \<and>
    (\<Sum>it\<leftarrow>filter fragile its. \<bar>5.0 * of_int (qty it)\<bar>) < float_limit \<longrightarrow>
      calculate_subtotal_and_fragile_fee its =
        Inr (Finite (\<Sum>it\<leftarrow>its. finite_value (unit_price it) * of_int (qty it)),
             Finite (\<Sum>it\<leftarrow>filter fragile its. 5.0 * of_int (qty it)))"
    using subtotal_loop_exact [of its 0 0]
    by (simp add: calculate_subtotal_and_fragile_fee_def)
  have steps: "calculate_subtotal_and_fragile_fee
     [\<lparr>sku = ''A'', category = ''book'', unit_price = Finite 100, qty = 2, fragile = True\<rparr>]
     = Inr (Finite 200, Finite 10) \<and>
   calculate_shipping ''US'' (Finite 200) = Finite 0 \<and>
   calculate_base_discount ''none'' (Finite 200) = Finite 0 \<and>
   apply_coupon None (Finite 200) = (Finite 0, []) \<and>
   calculate_tax ''US'' (Finite 200) (Finite 0 + Finite 0) = Finite 16"
    by (simp add: eval_defs)
  have total: "iid \<noteq> [] \<and> cid \<noteq> [] \<longrightarrow>
      compute_total (Some \<lparr>invoice_id = iid, customer_id = cid, country = ''US'',
          membership = ''none'', coupon = None,
          items = [\<lparr>sku = ''A'', category = ''book'', unit_price = Finite 100, qty = 2,
                     fragile = True\<rparr>]\<rparr>) = Inr (Finite 226, [])"
    by (simp add: compute_total_def validate_item_def eval_defs)
  from total steps folds exact show ?thesis by blast
qed

theorem scenario_three_witness:
  "compute_total (Some sample_us_book) = Inr (Finite 226, []) \<and>
   calculate_subtotal_and_fragile_fee (items sample_us_book) = Inr (Finite 200, Finite 10)"
proof -
  have r: "\<forall>it \<in> set (items sample_us_book).
      (\<exists>p. unit_price it = Finite p) \<and> \<bar>real_of_int (qty it)\<bar> < float_limit"
    using float_limit_large by (simp add: sample_us_book_def)
  have s: "(\<Sum>it\<leftarrow>items sample_us_book. finite_value (unit_price it) * of_int (qty it)) = 200"
    "(\<Sum>it\<leftarrow>filter fragile (items sample_us_book). 5.0 * real_of_int (qty it)) = 10"
    "(\<Sum>it\<leftarrow>items sample_us_book. \<bar>finite_value (unit_price it) * of_int (qty it)\<bar>) = 200"
    "(\<Sum>it\<leftarrow>filter fragile (items sample_us_book). \<bar>5.0 * real_of_int (qty it)\<bar>) = 10"
    by (simp_all add: sample_us_book_def)
  have l: "(200::real) < float_limit" "(10::real) < float_limit"
    using float_limit_large by simp_all
  have q: "\<forall>it \<in> set (items sample_us_book). \<bar>real_of_int (qty it)\<bar> < float_limit"
    using float_limit_large by (simp add: sample_us_book_def)
  from scenario_three [of "''INV-3''" "''CUST-3''" "items sample_us_book"] r l q
  show ?thesis unfolding s by (simp add: sample_us_book_def)
qed

section \<open>Shipping\<close>

text \<open>
  C4: for TH, JP and US the shipping fee is the base fee of the country (60, 600, 15)
  when the subtotal is strictly below its threshold (500, 4000, 100) and 0 otherwise, so
  a subtotal equal to the threshold ships free; any other country pays 25 below a
  subtotal of 200 and 0 otherwise.
\<close>

theorem calculate_shipping_table:
  "calculate_shipping c s =
     (if c = ''TH'' then (if s < Finite 500 then Finite 60 else Finite 0)
      else if c = ''JP'' then (if s < Finite 4000 then Finite 600 else Finite 0)
      else if c = ''US'' then (if s < Finite 100 then Finite 15 else Finite 0)
      else (if s < Finite 200 then Finite 25 else Finite 0)) \<and>
   calculate_shipping ''TH'' (Finite 500) = Finite 0 \<and>
   calculate_shipping ''JP'' (Finite 4000) = Finite 0 \<and>
   calculate_shipping ''US'' (Finite 100) = Finite 0"
  by (simp add: calculate_shipping_def shipping_rates_cases less_pyfloat_def)

theorem calculate_shipping_table_witness:
  "calculate_shipping ''US'' (Finite 50) = Finite 15 \<and>
   calculate_shipping ''US'' (Finite 100) = Finite 0 \<and>
   calculate_shipping ''US'' (Finite 150) = Finite 0 \<and>
   calculate_shipping ''XX'' (Finite 199) = Finite 25 \<and>
   calculate_shipping ''XX'' (Finite 200) = Finite 0 \<and>
   calculate_shipping ''JP'' (Finite 3999.5) = Finite 600 \<and>
   calculate_shipping ''TH'' NaN = Finite 0 \<and>
   calculate_shipping ''TH'' PosInf = Finite 0"
  using calculate_shipping_table [of "''US''" "Finite 50"]
    calculate_shipping_table [of "''US''" "Finite 100"]
    calculate_shipping_table [of "''US''" "Finite 150"]
    calculate_shipping_table [of "''XX''" "Finite 199"]
    calculate_shipping_table [of "''XX''" "Finite 200"]
    calculate_shipping_table [of "''JP''" "Finite 3999.5"]
    calculate_shipping_table [of "''TH''" NaN]
    calculate_shipping_table [of "''TH''" PosInf]
  by (simp add: less_pyfloat_def)

section \<open>Discounts\<close>

text \<open>
  C5: the base discount is 3 percent of the subtotal for membership gold, 5 percent for
  platinum, otherwise 20 when the subtotal exceeds 3000, otherwise 0. Gold and platinum
  get their percentage at every subtotal, never the flat 20 on top: gold at a subtotal of
  5000 gives 150, not 170. On a finite subtotal the percentage is the exact product.
\<close>

theorem calculate_base_discount_first_match:
  "calculate_base_discount m s =
     (if m = ''gold'' then s * Finite 0.03
      else if m = ''platinum'' then s * Finite 0.05
      else if Finite 3000 < s then Finite 20
      else Finite 0) \<and>
   calculate_base_discount ''gold'' s = s * Finite 0.03 \<and>
   calculate_base_discount ''platinum'' s = s * Finite 0.05 \<and>
   (\<bar>a\<bar> < float_limit \<longrightarrow>
      calculate_base_discount ''gold'' (Finite a) = Finite (a * 0.03) \<and>
      calculate_base_discount ''platinum'' (Finite a) = Finite (a * 0.05)) \<and>
   calculate_base_discount ''gold'' (Finite 5000) = Finite 150 \<and>
   calculate_base_discount ''gold'' (Finite 5000) \<noteq> Finite 170"
proof -
  have e: "\<bar>a\<bar> < float_limit \<longrightarrow>
      calculate_base_discount ''gold'' (Finite a) = Finite (a * 0.03) \<and>
      calculate_base_discount ''platinum'' (Finite a) = Finite (a * 0.05)"
    using scale_exact [of a "0.03"] scale_exact [of a "0.05"]
    by (simp add: calculate_base_discount_def)
  have "\<bar>5000::real\<bar> < float_limit" using float_limit_large by simp
  from scale_exact [OF this, of "0.03"]
  have g: "calculate_base_discount ''gold'' (Finite 5000) = Finite 150"
    by (simp add: calculate_base_discount_def)
  from e g show ?thesis by (simp add: calculate_base_discount_def)
qed

theorem calculate_base_discount_first_match_witness:
  "calculate_base_discount ''platinum'' (Finite 5000) = Finite 250 \<and>
   calculate_base_discount ''none'' (Finite 5000) = Finite 20 \<and>
   calculate_base_discount ''Gold'' (Finite 3000) = Finite 0"
proof -
  have "\<bar>5000::real\<bar> < float_limit" using float_limit_large by simp
  with calculate_base_discount_first_match [of "''platinum''" "Finite 5000" 5000]
    calculate_base_discount_first_match [of "''none''" "Finite 5000" 5000]
    calculate_base_discount_first_match [of "''Gold''" "Finite 3000" 5000]
  show ?thesis by (simp add: less_pyfloat_def)
qed

text \<open>
  C6: no coupon, an empty coupon or one of whitespace only gives discount 0 and no
  warning. Any other coupon is trimmed and looked up as it is written: WELCOME10, VIP20
  and STUDENT5 give 10, 20 and 5 percent of the subtotal and no warning, every other code
  gives discount 0 and the single warning "Unknown coupon". So " WELCOME10 " on a
  subtotal of 1000 gives 100 and no warning.
\<close>

theorem apply_coupon_cases:
  "apply_coupon cpn s =
     (case cpn of
        None \<Rightarrow> (Finite 0, [])
      | Some c \<Rightarrow>
          if \<forall>ch \<in> set c. isspace ch then (Finite 0, [])
          else if strip c = ''WELCOME10'' then (s * Finite 0.10, [])
          else if strip c = ''VIP20'' then (s * Finite 0.20, [])
          else if strip c = ''STUDENT5'' then (s * Finite 0.05, [])
          else (Finite 0, [''Unknown coupon''])) \<and>
   apply_coupon (Some '' WELCOME10 '') (Finite 1000) = (Finite 100, [])"
proof -
  have "strip '' WELCOME10 '' = ''WELCOME10''"
    by (simp add: strip_def lstrip_def rstrip_def isspace_def)
  moreover have "\<bar>1000::real\<bar> < float_limit" using float_limit_large by simp
  from scale_exact [OF this, of "0.10"] have "Finite 1000 * Finite 0.10 = Finite 100" by simp
  ultimately have "apply_coupon (Some '' WELCOME10 '') (Finite 1000) = (Finite 100, [])"
    by (simp add: apply_coupon_def coupon_rate_cases)
  then show ?thesis
    by (simp add: apply_coupon_def coupon_rate_cases strip_empty_iff split: option.splits)
qed

theorem apply_coupon_cases_witness:
  "apply_coupon (Some ''VIP20  '') (Finite 1000) = (Finite 200, []) \<and>
   apply_coupon (Some ''welcome10'') (Finite 1000) = (Finite 0, [''Unknown coupon'']) \<and>
   apply_coupon (Some ''   '') (Finite 1000) = (Finite 0, []) \<and>
   apply_coupon (Some []) (Finite 1000) = (Finite 0, []) \<and>
   apply_coupon None (Finite 1000) = (Finite 0, [])"
  using apply_coupon_cases [of "Some ''VIP20  ''" "Finite 1000"]
    apply_coupon_cases [of "Some ''welcome10''" "Finite 1000"]
    apply_coupon_cases [of "Some ''   ''" "Finite 1000"]
    apply_coupon_cases [of "Some []" "Finite 1000"]
    apply_coupon_cases [of None "Finite 1000"]
  by (simp add: strip_def lstrip_def rstrip_def isspace_def times_pyfloat_def to_float_small)

section \<open>Tax\<close>

text \<open>
  C3: the tax is (subtotal - discount) times the rate of the country: 0.07 for TH, 0.10
  for JP, 0.08 for US, 0.05 for any other; on finite arguments whose difference is within
  the range it is the exact product. The difference is not clamped: a discount above the
  subtotal gives a negative tax. In \<open>compute_total\<close> the discount handed to the tax is
  the base discount plus the coupon discount, and the only clamp is the one of the final
  total.
\<close>

theorem calculate_tax_unclamped:
  "calculate_tax c s d =
     (s - d) * (if c = ''TH'' then Finite 0.07
                else if c = ''JP'' then Finite 0.10
                else if c = ''US'' then Finite 0.08
                else Finite 0.05) \<and>
   (s < d \<longrightarrow> calculate_tax c s d < Finite 0) \<and>
   (\<bar>a - b\<bar> < float_limit \<longrightarrow>
      calculate_tax c (Finite a) (Finite b) =
        Finite ((a - b) * (if c = ''TH'' then 0.07
                           else if c = ''JP'' then 0.10
                           else if c = ''US'' then 0.08
                           else 0.05))) \<and>
   (validate (Some i) = [] \<and>
    (\<forall>it \<in> set (items i). \<bar>real_of_int (qty it)\<bar> < float_limit) \<longrightarrow>
      (\<exists>subtotal fragile_fee.
         calculate_subtotal_and_fragile_fee (items i) = Inr (subtotal, fragile_fee) \<and>
         (let shipping = calculate_shipping (country i) subtotal;
              discount = calculate_base_discount (membership i) subtotal
                           + fst (apply_coupon (coupon i) subtotal);
              rate = (if country i = ''TH'' then Finite 0.07
                      else if country i = ''JP'' then Finite 0.10
                      else if country i = ''US'' then Finite 0.08
                      else Finite 0.05)
          in \<exists>warnings. compute_total (Some i) =
               Inr (builtin_max
                      (subtotal + shipping + fragile_fee + (subtotal - discount) * rate
                         - discount) (Finite 0), warnings))))"
proof -
  have n: "s < d \<longrightarrow> calculate_tax c s d < Finite 0"
  proof
    assume "s < d"
    from negative_times_rate [OF less_imp_diff_negative [OF this]] show
      "calculate_tax c s d < Finite 0"
      by (simp add: calculate_tax_cases)
  qed
  have e: "\<bar>a - b\<bar> < float_limit \<longrightarrow>
      calculate_tax c (Finite a) (Finite b) =
        Finite ((a - b) * (if c = ''TH'' then 0.07
                           else if c = ''JP'' then 0.10
                           else if c = ''US'' then 0.08
                           else 0.05))"
  proof
    assume r: "\<bar>a - b\<bar> < float_limit"
    then have "Finite a - Finite b = Finite (a - b)"
      by (simp add: minus_pyfloat_def to_float_Finite)
    with scale_exact [OF r, of "0.07"] scale_exact [OF r, of "0.10"]
      scale_exact [OF r, of "0.08"] scale_exact [OF r, of "0.05"]
    show "calculate_tax c (Finite a) (Finite b) =
        Finite ((a - b) * (if c = ''TH'' then 0.07
                           else if c = ''JP'' then 0.10
                           else if c = ''US'' then 0.08
                           else 0.05))"
      by (simp add: calculate_tax_cases)
  qed
  have p: "validate (Some i) = [] \<and>
    (\<forall>it \<in> set (items i). \<bar>real_of_int (qty it)\<bar> < float_limit) \<longrightarrow>
      (\<exists>subtotal fragile_fee.
         calculate_subtotal_and_fragile_fee (items i) = Inr (subtotal, fragile_fee) \<and>
         (let shipping = calculate_shipping (country i) subtotal;
              discount = calculate_base_discount (membership i) subtotal
                           + fst (apply_coupon (coupon i) subtotal);
              rate = (if country i = ''TH'' then Finite 0.07
                      else if country i = ''JP'' then Finite 0.10
                      else if country i = ''US'' then Finite 0.08
                      else Finite 0.05)
          in \<exists>warnings. compute_total (Some i) =
               Inr (builtin_max
                      (subtotal + shipping + fragile_fee + (subtotal - discount) * rate
                         - discount) (Finite 0), warnings)))"
  proof
    assume "validate (Some i) = [] \<and>
      (\<forall>it \<in> set (items i). \<bar>real_of_int (qty it)\<bar> < float_limit)"
    then have "validate (Some i) = []"
      and "\<forall>it \<in> set (items i). \<bar>real_of_int (qty it)\<bar> < float_limit" by auto
    from compute_total_in_range [OF this] obtain subtotal fragile_fee where
      c: "calculate_subtotal_and_fragile_fee (items i) = Inr (subtotal, fragile_fee)"
      and t: "compute_total (Some i) =
       (let shipping = calculate_shipping (country i) subtotal;
            discount = calculate_base_discount (membership i) subtotal
                         + fst (apply_coupon (coupon i) subtotal);
            tax = calculate_tax (country i) subtotal discount
        in Inr (builtin_max (subtotal + shipping + fragile_fee + tax - discount) (Finite 0),
                snd (apply_coupon (coupon i) subtotal)
                  @ (if Finite 10000 < subtotal \<and> membership i \<noteq> ''gold''
                        \<and> membership i \<noteq> ''platinum''
                     then [''Consider membership upgrade''] else [])))"
      by blast
    have "let shipping = calculate_shipping (country i) subtotal;
              discount = calculate_base_discount (membership i) subtotal
                           + fst (apply_coupon (coupon i) subtotal);
              rate = (if country i = ''TH'' then Finite 0.07
                      else if country i = ''JP'' then Finite 0.10
                      else if country i = ''US'' then Finite 0.08
                      else Finite 0.05)
          in \<exists>warnings. compute_total (Some i) =
               Inr (builtin_max
                      (subtotal + shipping + fragile_fee + (subtotal - discount) * rate
                         - discount) (Finite 0), warnings)"
      unfolding t by (simp add: Let_def calculate_tax_cases)
    with c show "\<exists>subtotal fragile_fee.
         calculate_subtotal_and_fragile_fee (items i) = Inr (subtotal, fragile_fee) \<and>
         (let shipping = calculate_shipping (country i) subtotal;
              discount = calculate_base_discount (membership i) subtotal
                           + fst (apply_coupon (coupon i) subtotal);
              rate = (if country i = ''TH'' then Finite 0.07
                      else if country i = ''JP'' then Finite 0.10
                      else if country i = ''US'' then Finite 0.08
                      else Finite 0.05)
          in \<exists>warnings. compute_total (Some i) =
               Inr (builtin_max
                      (subtotal + shipping + fragile_fee + (subtotal - discount) * rate
                         - discount) (Finite 0), warnings))"
      by blast
  qed
  from calculate_tax_cases [of c s d] n e p show ?thesis by blast
qed

theorem calculate_tax_unclamped_witness:
  "calculate_tax ''TH'' (Finite 100) (Finite 300) = Finite (- 14) \<and>
   calculate_tax ''TH'' (Finite 100) (Finite 300) < Finite 0 \<and>
   calculate_tax ''BR'' (Finite 1000) (Finite 0) = Finite 50 \<and>
   (\<exists>warnings. compute_total (Some sample_th_platinum) = Inr (Finite 802.5, warnings))"
proof -
  have v: "validate (Some sample_th_platinum) = []"
    by (simp add: sample_th_platinum_def validate_item_def less_pyfloat_def)
  have q: "\<forall>it \<in> set (items sample_th_platinum). \<bar>real_of_int (qty it)\<bar> < float_limit"
    using float_limit_large by (simp add: sample_th_platinum_def)
  have l: "Finite 100 < Finite 300" by (simp add: less_pyfloat_def)
  have r: "\<bar>100 - 300 :: real\<bar> < float_limit" "\<bar>1000 - 0 :: real\<bar> < float_limit"
    using float_limit_large by simp_all
  have s: "calculate_subtotal_and_fragile_fee (items sample_th_platinum)
             = Inr (Finite 1000, Finite 0)"
    by (simp add: sample_th_platinum_def eval_defs)
  from calculate_tax_unclamped [of "''TH''" "Finite 100" "Finite 300" 100 300 sample_th_platinum]
    calculate_tax_unclamped [of "''BR''" "Finite 1000" "Finite 0" 1000 0 sample_th_platinum]
    v q l r
  show ?thesis
    unfolding s by (simp add: sample_th_platinum_def eval_defs)
qed

section \<open>The total\<close>

text \<open>
  C2, as the code has it: for an invoice that passes the validation, with quantities
  within the range of the floats, the total returned is \<open>max\<close> of
  subtotal + shipping + fragile fee + tax - discount and 0, the discount being the base
  discount plus the coupon discount, where \<open>max\<close> returns its first argument unless
  the second is greater (on a finite sum, the greater of the sum and 0). The total is at
  least 0 or it is NaN, and it is at least 0 whenever the subtotal is finite.
\<close>

theorem compute_total_clamped_sum:
  assumes "validate (Some i) = []"
    and "\<forall>it \<in> set (items i). \<bar>real_of_int (qty it)\<bar> < float_limit"
  shows "\<exists>subtotal fragile_fee total warnings.
     calculate_subtotal_and_fragile_fee (items i) = Inr (subtotal, fragile_fee) \<and>
     compute_total (Some i) = Inr (total, warnings) \<and>
     total =
       (let shipping = calculate_shipping (country i) subtotal;
            discount = calculate_base_discount (membership i) subtotal
                         + fst (apply_coupon (coupon i) subtotal);
            tax = calculate_tax (country i) subtotal discount
        in builtin_max (subtotal + shipping + fragile_fee + tax - discount) (Finite 0)) \<and>
     (total = NaN \<or> Finite 0 \<le> total) \<and>
     ((\<exists>s. subtotal = Finite s) \<longrightarrow> Finite 0 \<le> total) \<and>
     (\<forall>x. builtin_max (Finite x) (Finite 0) = Finite (max x 0))"
proof -
  from compute_total_in_range [OF assms] obtain subtotal fragile_fee where
    c: "calculate_subtotal_and_fragile_fee (items i) = Inr (subtotal, fragile_fee)"
    and s: "subtotal = NaN \<or> at_least 0 subtotal" and f: "at_least 0 fragile_fee"
    and t: "compute_total (Some i) =
       (let shipping = calculate_shipping (country i) subtotal;
            discount = calculate_base_discount (membership i) subtotal
                         + fst (apply_coupon (coupon i) subtotal);
            tax = calculate_tax (country i) subtotal discount
        in Inr (builtin_max (subtotal + shipping + fragile_fee + tax - discount) (Finite 0),
                snd (apply_coupon (coupon i) subtotal)
                  @ (if Finite 10000 < subtotal \<and> membership i \<noteq> ''gold''
                        \<and> membership i \<noteq> ''platinum''
                     then [''Consider membership upgrade''] else [])))"
    by blast
  define discount where "discount = calculate_base_discount (membership i) subtotal
                         + fst (apply_coupon (coupon i) subtotal)"
  define raw where "raw = subtotal + calculate_shipping (country i) subtotal + fragile_fee
     + calculate_tax (country i) subtotal discount - discount"
  define warnings where "warnings = snd (apply_coupon (coupon i) subtotal)
                  @ (if Finite 10000 < subtotal \<and> membership i \<noteq> ''gold''
                        \<and> membership i \<noteq> ''platinum''
                     then [''Consider membership upgrade''] else [])"
  have r: "compute_total (Some i) = Inr (builtin_max raw (Finite 0), warnings)"
    unfolding t raw_def discount_def warnings_def by (simp add: Let_def)
  have fin: "(\<exists>s. subtotal = Finite s) \<longrightarrow> Finite 0 \<le> builtin_max raw (Finite 0)"
  proof
    assume "\<exists>s. subtotal = Finite s"
    then obtain x where x: "subtotal = Finite x" by blast
    with s have "0 \<le> x" "x < float_limit" by (auto simp: at_least_iff)
    from total_at_least [OF this f, of "country i" "membership i" "coupon i"]
    have "at_least 0 raw" by (simp add: raw_def discount_def x)
    from at_least_ge_zero [OF this] show "Finite 0 \<le> builtin_max raw (Finite 0)" by simp
  qed
  have m: "\<forall>x. builtin_max (Finite x) (Finite 0) = Finite (max x 0)"
    by (simp add: builtin_max_zero_cases)
  have "builtin_max raw (Finite 0) =
       (let shipping = calculate_shipping (country i) subtotal;
            discount = calculate_base_discount (membership i) subtotal
                         + fst (apply_coupon (coupon i) subtotal);
            tax = calculate_tax (country i) subtotal discount
        in builtin_max (subtotal + shipping + fragile_fee + tax - discount) (Finite 0))"
    by (simp add: raw_def discount_def Let_def)
  with c r fin m builtin_max_zero_nonneg [of raw] show ?thesis by blast
qed

theorem compute_total_clamped_sum_witness:
  "validate (Some sample_th_platinum) = [] \<and>
   compute_total (Some sample_th_platinum) = Inr (Finite 802.5, []) \<and>
   Finite 0 \<le> Finite 802.5 \<and>
   builtin_max (Finite (- 5)) (Finite 0) = Finite 0"
proof -
  have v: "validate (Some sample_th_platinum) = []"
    by (simp add: sample_th_platinum_def validate_item_def less_pyfloat_def)
  have q: "\<forall>it \<in> set (items sample_th_platinum). \<bar>real_of_int (qty it)\<bar> < float_limit"
    using float_limit_large by (simp add: sample_th_platinum_def)
  have s: "calculate_subtotal_and_fragile_fee (items sample_th_platinum)
             = Inr (Finite 1000, Finite 0)"
    by (simp add: sample_th_platinum_def eval_defs)
  have c: "compute_total (Some sample_th_platinum) = Inr (Finite 802.5, [])"
    by (simp add: compute_total_def validate_item_def sample_th_platinum_def eval_defs)
  from compute_total_clamped_sum [OF v q] obtain total warnings where
    r: "compute_total (Some sample_th_platinum) = Inr (total, warnings)"
    and n: "(\<exists>s. Finite 1000 = Finite s) \<longrightarrow> Finite 0 \<le> total"
    and m: "\<forall>x. builtin_max (Finite x) (Finite 0) = Finite (max x 0)"
    unfolding s by auto
  from r c have "total = Finite 802.5" by simp
  with n have "Finite 0 \<le> Finite 802.5" by blast
  moreover from m have "builtin_max (Finite (- 5)) (Finite 0) = Finite 0" by simp
  ultimately show ?thesis using v c by blast
qed

text \<open>
  C2 as stated (a total of at least 0 for every valid invoice) fails on a valid invoice
  whose line, \<open>10^308\<close> times 10, overflows: the subtotal and the gold discount are
  infinite, the tax and the total NaN, and 0 \<open>\<le>\<close> NaN is false.
\<close>

theorem compute_total_nan_counterexample:
  "validate (Some sample_huge_price) = [] \<and>
   compute_total (Some sample_huge_price) = Inr (NaN, []) \<and>
   \<not> Finite 0 \<le> NaN"
  by (simp add: compute_total_def validate_item_def sample_huge_price_def step_defs)

section \<open>Warnings\<close>

text \<open>
  C9: for an invoice that passes the validation (with quantities within the range of the
  floats, so that the subtotal step returns), the warnings returned are the coupon
  warnings followed by "Consider membership upgrade" when the subtotal exceeds 10000 and
  the membership is neither gold nor platinum, and by nothing otherwise; that warning is
  present exactly in that case, and the total is the same clamped sum either way.
\<close>

theorem upgrade_warning:
  assumes "validate (Some i) = []"
    and "\<forall>it \<in> set (items i). \<bar>real_of_int (qty it)\<bar> < float_limit"
  shows "\<exists>subtotal fragile_fee.
     calculate_subtotal_and_fragile_fee (items i) = Inr (subtotal, fragile_fee) \<and>
     (let upgrade = (Finite 10000 < subtotal \<and> membership i \<noteq> ''gold''
                       \<and> membership i \<noteq> ''platinum'');
          shipping = calculate_shipping (country i) subtotal;
          discount = calculate_base_discount (membership i) subtotal
                       + fst (apply_coupon (coupon i) subtotal);
          tax = calculate_tax (country i) subtotal discount
      in \<exists>total warnings. compute_total (Some i) = Inr (total, warnings) \<and>
           warnings = snd (apply_coupon (coupon i) subtotal)
                        @ (if upgrade then [''Consider membership upgrade''] else []) \<and>
           (''Consider membership upgrade'' \<in> set warnings \<longleftrightarrow> upgrade) \<and>
           total = builtin_max (subtotal + shipping + fragile_fee + tax - discount) (Finite 0))"
proof -
  from compute_total_in_range [OF assms] obtain subtotal fragile_fee where
    c: "calculate_subtotal_and_fragile_fee (items i) = Inr (subtotal, fragile_fee)"
    and t: "compute_total (Some i) =
       (let shipping = calculate_shipping (country i) subtotal;
            discount = calculate_base_discount (membership i) subtotal
                         + fst (apply_coupon (coupon i) subtotal);
            tax = calculate_tax (country i) subtotal discount
        in Inr (builtin_max (subtotal + shipping + fragile_fee + tax - discount) (Finite 0),
                snd (apply_coupon (coupon i) subtotal)
                  @ (if Finite 10000 < subtotal \<and> membership i \<noteq> ''gold''
                        \<and> membership i \<noteq> ''platinum''
                     then [''Consider membership upgrade''] else [])))"
    by blast
  have "let upgrade = (Finite 10000 < subtotal \<and> membership i \<noteq> ''gold''
                       \<and> membership i \<noteq> ''platinum'');
          shipping = calculate_shipping (country i) subtotal;
          discount = calculate_base_discount (membership i) subtotal
                       + fst (apply_coupon (coupon i) subtotal);
          tax = calculate_tax (country i) subtotal discount
      in \<exists>total warnings. compute_total (Some i) = Inr (total, warnings) \<and>
           warnings = snd (apply_coupon (coupon i) subtotal)
                        @ (if upgrade then [''Consider membership upgrade''] else []) \<and>
           (''Consider membership upgrade'' \<in> set warnings \<longleftrightarrow> upgrade) \<and>
           total = builtin_max (subtotal + shipping + fragile_fee + tax - discount) (Finite 0)"
    using apply_coupon_warnings [of "coupon i" subtotal]
    unfolding t by (auto simp: Let_def)
  with c show ?thesis by blast
qed

theorem upgrade_warning_witness:
  "validate (Some sample_big_order) = [] \<and>
   compute_total (Some sample_big_order) =
     Inr (Finite 12594, [''Unknown coupon'', ''Consider membership upgrade'']) \<and>
   validate (Some sample_th_platinum) = [] \<and>
   compute_total (Some sample_th_platinum) = Inr (Finite 802.5, [])"
proof -
  have v: "validate (Some sample_big_order) = []"
    by (simp add: sample_big_order_def validate_item_def less_pyfloat_def)
  have w: "validate (Some sample_th_platinum) = []"
    by (simp add: sample_th_platinum_def validate_item_def less_pyfloat_def)
  have qv: "\<forall>it \<in> set (items sample_big_order). \<bar>real_of_int (qty it)\<bar> < float_limit"
    using float_limit_large by (simp add: sample_big_order_def)
  have qw: "\<forall>it \<in> set (items sample_th_platinum). \<bar>real_of_int (qty it)\<bar> < float_limit"
    using float_limit_large by (simp add: sample_th_platinum_def)
  have sv: "calculate_subtotal_and_fragile_fee (items sample_big_order)
              = Inr (Finite 12000, Finite 15)"
    by (simp add: sample_big_order_def eval_defs)
  have sw: "calculate_subtotal_and_fragile_fee (items sample_th_platinum)
              = Inr (Finite 1000, Finite 0)"
    by (simp add: sample_th_platinum_def eval_defs)
  have 1: "compute_total (Some sample_big_order) =
     Inr (Finite 12594, [''Unknown coupon'', ''Consider membership upgrade''])"
    using upgrade_warning [OF v qv] unfolding sv
    by (simp add: sample_big_order_def eval_defs)
  have 2: "compute_total (Some sample_th_platinum) = Inr (Finite 802.5, [])"
    using upgrade_warning [OF w qw] unfolding sw
    by (simp add: sample_th_platinum_def eval_defs)
  from v w 1 2 show ?thesis by simp
qed

text \<open>
  C10: for an invoice that passes the validation (with quantities within the range of
  the floats, so that the subtotal step returns), the warnings returned are a subsequence
  of "Unknown coupon", "Consider membership upgrade": one of the four lists made of
  these two strings in this order, so at most two entries and none twice.
\<close>

theorem warnings_shape:
  assumes "validate (Some i) = []"
    and "\<forall>it \<in> set (items i). \<bar>real_of_int (qty it)\<bar> < float_limit"
  shows "\<exists>total warnings. compute_total (Some i) = Inr (total, warnings) \<and>
           subseq warnings [''Unknown coupon'', ''Consider membership upgrade''] \<and>
           warnings \<in> {[], [''Unknown coupon''], [''Consider membership upgrade''],
                        [''Unknown coupon'', ''Consider membership upgrade'']} \<and>
           length warnings \<le> 2 \<and> distinct warnings"
proof -
  from compute_total_in_range [OF assms] obtain subtotal fragile_fee where
    t: "compute_total (Some i) =
       (let shipping = calculate_shipping (country i) subtotal;
            discount = calculate_base_discount (membership i) subtotal
                         + fst (apply_coupon (coupon i) subtotal);
            tax = calculate_tax (country i) subtotal discount
        in Inr (builtin_max (subtotal + shipping + fragile_fee + tax - discount) (Finite 0),
                snd (apply_coupon (coupon i) subtotal)
                  @ (if Finite 10000 < subtotal \<and> membership i \<noteq> ''gold''
                        \<and> membership i \<noteq> ''platinum''
                     then [''Consider membership upgrade''] else [])))"
    by blast
  show ?thesis
    using apply_coupon_warnings [of "coupon i" subtotal]
    unfolding t by (auto simp: Let_def)
qed

theorem warnings_shape_witness:
  "validate (Some sample_big_order) = [] \<and>
   compute_total (Some sample_big_order) =
     Inr (Finite 12594, [''Unknown coupon'', ''Consider membership upgrade'']) \<and>
   subseq [''Unknown coupon'', ''Consider membership upgrade'']
     [''Unknown coupon'', ''Consider membership upgrade''] \<and>
   length [''Unknown coupon'', ''Consider membership upgrade''] \<le> 2"
proof -
  have v: "validate (Some sample_big_order) = []"
    by (simp add: sample_big_order_def validate_item_def less_pyfloat_def)
  have q: "\<forall>it \<in> set (items sample_big_order). \<bar>real_of_int (qty it)\<bar> < float_limit"
    using float_limit_large by (simp add: sample_big_order_def)
  have c: "compute_total (Some sample_big_order) =
     Inr (Finite 12594, [''Unknown coupon'', ''Consider membership upgrade''])"
    by (simp add: compute_total_def validate_item_def sample_big_order_def eval_defs)
  show ?thesis
    using v c warnings_shape [OF v q] by simp
qed

end
